theory Spec2Isabelle
  imports Main "HOL-Library.AList" "HOL-Library.Char_ord" "HOL-Library.List_Lexorder"
    "HOL-Library.Multiset"
begin

section \<open>The object API of pkg/api/object.go\<close>

text \<open>
  The file under verification holds the HTTP handlers of the object registry:
  \<^verbatim>\<open>createObject\<close>, \<^verbatim>\<open>deleteObject\<close>, \<^verbatim>\<open>getObject\<close>, \<^verbatim>\<open>updateObject\<close>,
  \<^verbatim>\<open>listObjects\<close>, \<^verbatim>\<open>getStatusObject\<close>, \<^verbatim>\<open>listStatusObjects\<close>, \<^verbatim>\<open>listObjectKinds\<close>,
  together with \<^verbatim>\<open>readObjectSpec\<close>, \<^verbatim>\<open>upgradeConfigVersion\<close> and the sort
  interface of \<^verbatim>\<open>specList\<close>.

  A handler is a function from the request and the server state to the new server state
  and the outcome of the request: a response, or a panic. The functions of other
  libraries (the YAML marshaller, the parser of package supervisor) are parameters of
  the handlers that call them. The methods of \<^verbatim>\<open>Server\<close> that object.go calls but does
  not define (\<^verbatim>\<open>_getObject\<close>, \<^verbatim>\<open>_putObject\<close>, ...) are modelled from the specification
  and marked so. A leading underscore is not an Isabelle identifier, so \<^verbatim>\<open>s._getObject\<close>
  is written \<open>s_getObject\<close>.
\<close>

subsection \<open>Data\<close>

text \<open>
  Modelled from the spec: the type \<^verbatim>\<open>supervisor.Spec\<close> is declared in package supervisor.
  object.go reads it only through \<^verbatim>\<open>Name()\<close>, \<^verbatim>\<open>Kind()\<close> and \<^verbatim>\<open>YAMLConfig()\<close>; the spec
  gives it a name, a kind and a canonical serialized form.
\<close>

record spec =
  Name :: string
  Kind :: string
  YAMLConfig :: string

text \<open>
  Modelled from the spec: the fields of \<^verbatim>\<open>Server\<close> behind the registry methods. The
  registry maps a name to its Spec; it is an association list here, so that the order in
  which \<^verbatim>\<open>_listObjects\<close> hands the Specs out is part of the state. The configuration
  version is "a monotonically increasing integer" whose machine type object.go does not
  show (it is printed with \<^verbatim>\<open>%d\<close>); it is an unbounded integer here. The status view maps
  a name to an opaque status value.
\<close>

record 'st server =
  objects :: "(string \<times> spec) list"
  configVersion :: int
  statusView :: "string \<rightharpoonup> 'st"

text \<open>
  What a handler reads from \<^verbatim>\<open>iris.Context\<close>: the outcome of
  \<^verbatim>\<open>ioutil.ReadAll(ctx.Request().Body)\<close> (\<open>Inl\<close> the read error),
  \<^verbatim>\<open>ctx.Params().Get("name")\<close> (empty when the route has no such parameter), and
  \<^verbatim>\<open>ctx.Path()\<close>.
\<close>

record ctx =
  ReadAll :: "string + string"
  ParamName :: string
  Path :: string

text \<open>
  Modelled from the spec: \<^verbatim>\<open>ConfigVersionKey\<close>, the name of "a version header", is a
  constant of package api declared outside object.go. Its text is not known here: it is
  kept symbolic, as a header name of its own beside the two that object.go spells out,
  \<^verbatim>\<open>"Location"\<close> and \<^verbatim>\<open>"Content-Type"\<close>.
\<close>

datatype hkey = ConfigVersionKey | Location | ContentType

text \<open>
  What has been written to the response: nothing, the bytes given to \<^verbatim>\<open>ctx.Write\<close>, or
  the structured error body of \<^verbatim>\<open>HandleAPIError\<close>.
\<close>

datatype body = NoBody | Bytes string | APIErr nat string

record response =
  StatusCode :: nat
  Header :: "hkey \<rightharpoonup> string"
  Written :: body

text \<open>
  The outcome of a request: the response, or a panic. The panics of object.go wrap the
  error of the marshaller in a message that prints a Go value with \<^verbatim>\<open>%#v\<close>; that
  rendering is not reproduced, and such a panic carries the marshaller's error alone.
\<close>

datatype result = Responded response | Panicked string

definition StatusOK :: nat where "StatusOK = 200"
definition StatusCreated :: nat where "StatusCreated = 201"
definition StatusBadRequest :: nat where "StatusBadRequest = 400"
definition StatusNotFound :: nat where "StatusNotFound = 404"
definition StatusConflict :: nat where "StatusConflict = 409"

text \<open>The response writer before the handler has touched it; the status defaults to 200.\<close>

definition fresh :: response where
  "fresh = \<lparr>StatusCode = StatusOK, Header = Map.empty, Written = NoBody\<rparr>"

definition ctx_StatusCode :: "nat \<Rightarrow> response \<Rightarrow> response" where
  "ctx_StatusCode code w = w\<lparr>StatusCode := code\<rparr>"

text \<open>
  \<^verbatim>\<open>ctx.Header(k, v)\<close> and \<^verbatim>\<open>ResponseWriter().Header().Set(k, v)\<close>. No handler sets a
  header twice or to the empty string, so adding and setting coincide.
\<close>

definition ctx_Header :: "hkey \<Rightarrow> string \<Rightarrow> response \<Rightarrow> response" where
  "ctx_Header k v w = w\<lparr>Header := (Header w)(k \<mapsto> v)\<rparr>"

definition ctx_Write :: "string \<Rightarrow> response \<Rightarrow> response" where
  "ctx_Write buff w = w\<lparr>Written := Bytes buff\<rparr>"

text \<open>
  Modelled from the spec: \<^verbatim>\<open>HandleAPIError\<close> is defined elsewhere in package api. By the
  spec an error response carries the status code and a structured error body.
\<close>

definition HandleAPIError :: "nat \<Rightarrow> string \<Rightarrow> response \<Rightarrow> response" where
  "HandleAPIError code err w = w\<lparr>StatusCode := code, Written := APIErr code err\<rparr>"

subsection \<open>Printing the version\<close>

text \<open>\<^verbatim>\<open>fmt.Sprintf("%d", version)\<close>: the decimal digits, with a minus sign below zero.\<close>

function nat_digits :: "nat \<Rightarrow> string" where
  "nat_digits n =
     (if n < 10 then [''0123456789'' ! n]
      else nat_digits (n div 10) @ [''0123456789'' ! (n mod 10)])"
  by pat_completeness auto
termination
  by (relation "measure (\<lambda>n. n)") auto

declare nat_digits.simps [simp del]

definition sprintf_d :: "int \<Rightarrow> string" where
  "sprintf_d v = (if v < 0 then ''-'' @ nat_digits (nat (- v)) else nat_digits (nat v))"

subsection \<open>The registry methods of Server\<close>

text \<open>
  Modelled from the spec: \<^verbatim>\<open>_getObject\<close>, \<^verbatim>\<open>_listObjects\<close>, \<^verbatim>\<open>_putObject\<close>,
  \<^verbatim>\<open>_deleteObject\<close>, \<^verbatim>\<open>_plusOneVersion\<close>, \<^verbatim>\<open>_getStatusObject\<close> and
  \<^verbatim>\<open>_listStatusObjects\<close> are methods of \<^verbatim>\<open>Server\<close> defined outside object.go. By the spec:
  get reads the current mapping (absent is not an error); list reads all Specs, in no
  promised order; put "unconditionally inserts or replaces the entry for spec.name";
  delete "removes the entry if present"; bumpVersion "increments and returns" the
  configuration version; the status source answers "StatusValue or absent" for a name
  and the whole mapping for all.
\<close>

definition s_getObject :: "'st server \<Rightarrow> string \<Rightarrow> spec option" where
  "s_getObject s name = map_of (objects s) name"

definition s_listObjects :: "'st server \<Rightarrow> spec list" where
  "s_listObjects s = map snd (objects s)"

definition s_putObject :: "'st server \<Rightarrow> spec \<Rightarrow> 'st server" where
  "s_putObject s sp = s\<lparr>objects := AList.update (Name sp) sp (objects s)\<rparr>"

definition s_deleteObject :: "'st server \<Rightarrow> string \<Rightarrow> 'st server" where
  "s_deleteObject s name = s\<lparr>objects := AList.delete name (objects s)\<rparr>"

definition s_plusOneVersion :: "'st server \<Rightarrow> int \<times> 'st server" where
  "s_plusOneVersion s =
     (let version = configVersion s + 1 in (version, s\<lparr>configVersion := version\<rparr>))"

definition s_getStatusObject :: "'st server \<Rightarrow> string \<Rightarrow> 'st option" where
  "s_getStatusObject s name = statusView s name"

definition s_listStatusObjects :: "'st server \<Rightarrow> (string \<rightharpoonup> 'st)" where
  "s_listStatusObjects s = statusView s"

text \<open>
  The registry is a mapping: every name has at most one entry, stored under the name of
  its Spec. The handlers keep it so (\<open>run_wellKeyed\<close> below).
\<close>

definition wellKeyed :: "'st server \<Rightarrow> bool" where
  "wellKeyed s =
     (distinct (map fst (objects s)) \<and> list_all (\<lambda>(k, sp). k = Name sp) (objects s))"

subsection \<open>The parser of package supervisor\<close>

text \<open>
  Modelled from the spec: \<^verbatim>\<open>supervisor.NewSpec\<close> and \<^verbatim>\<open>Spec.YAMLConfig\<close> are defined in
  package supervisor, not in object.go. The handlers below take the parser as a
  parameter and assume nothing of it. What the spec says of parsing is kept in a type of
  its own: the canonical form of a Spec is a "format-preserving round-trip"
  serialization, so a parser reads the canonical form of a Spec it has produced back as
  that same Spec. \<open>parse\<close> gives the function of such a parser.
\<close>

typedef parser =
  "{p :: string \<Rightarrow> string + spec. \<forall>b sp. p b = Inr sp \<longrightarrow> p (YAMLConfig sp) = Inr sp}"
  morphisms parse Parser
  by (rule exI [of _ "\<lambda>b. Inl []"]) simp

setup_lifting type_definition_parser

subsection \<open>readObjectSpec and upgradeConfigVersion\<close>

text \<open>
  \<open>NewSpec\<close> stands for \<^verbatim>\<open>supervisor.NewSpec\<close>, the parser of package supervisor: it
  returns an error (\<open>Inl\<close>) or the parsed Spec.
\<close>

definition readObjectSpec :: "(string \<Rightarrow> string + spec) \<Rightarrow> ctx \<Rightarrow> string + spec" where
  "readObjectSpec NewSpec c =
     (case ReadAll c of
        Inl err \<Rightarrow> Inl (''read body failed: '' @ err)
      | Inr body \<Rightarrow>
          (case NewSpec body of
             Inl err \<Rightarrow> Inl err
           | Inr sp \<Rightarrow>
               (let name = ParamName c in
                if name \<noteq> [] \<and> name \<noteq> Name sp
                then Inl ''inconsistent name in url and spec ''
                else Inr sp)))"

definition upgradeConfigVersion :: "'st server \<Rightarrow> response \<Rightarrow> 'st server \<times> response" where
  "upgradeConfigVersion s w =
     (let (version, s') = s_plusOneVersion s
      in (s', ctx_Header ConfigVersionKey (sprintf_d version) w))"

subsection \<open>The handlers that change the registry\<close>

text \<open>
  Each of these runs between \<^verbatim>\<open>s.Lock()\<close> and the deferred \<^verbatim>\<open>s.Unlock()\<close>: its reads
  and writes of the registry are one step.
\<close>

definition createObject ::
  "(string \<Rightarrow> string + spec) \<Rightarrow> ctx \<Rightarrow> 'st server \<Rightarrow> 'st server \<times> result" where
  "createObject NewSpec c s =
     (case readObjectSpec NewSpec c of
        Inl err \<Rightarrow> (s, Responded (HandleAPIError StatusBadRequest err fresh))
      | Inr sp \<Rightarrow>
          (let name = Name sp in
           case s_getObject s name of
             Some existedSpec \<Rightarrow>
               (s, Responded (HandleAPIError StatusConflict (''conflict name: '' @ name) fresh))
           | None \<Rightarrow>
               (let s1 = s_putObject s sp;
                    (s2, w1) = upgradeConfigVersion s1 fresh;
                    w2 = ctx_StatusCode StatusCreated w1;
                    location = Path c @ ''/'' @ name
                in (s2, Responded (ctx_Header Location location w2)))))"

definition deleteObject :: "ctx \<Rightarrow> 'st server \<Rightarrow> 'st server \<times> result" where
  "deleteObject c s =
     (let name = ParamName c in
      case s_getObject s name of
        None \<Rightarrow> (s, Responded (HandleAPIError StatusNotFound ''not found'' fresh))
      | Some sp \<Rightarrow>
          (let s1 = s_deleteObject s name;
               (s2, w1) = upgradeConfigVersion s1 fresh
           in (s2, Responded w1)))"

definition updateObject ::
  "(string \<Rightarrow> string + spec) \<Rightarrow> ctx \<Rightarrow> 'st server \<Rightarrow> 'st server \<times> result" where
  "updateObject NewSpec c s =
     (case readObjectSpec NewSpec c of
        Inl err \<Rightarrow> (s, Responded (HandleAPIError StatusBadRequest err fresh))
      | Inr sp \<Rightarrow>
          (let name = Name sp in
           case s_getObject s name of
             None \<Rightarrow> (s, Responded (HandleAPIError StatusNotFound ''not found'' fresh))
           | Some existedSpec \<Rightarrow>
               if Kind existedSpec \<noteq> Kind sp
               then (s, Responded (HandleAPIError StatusBadRequest
                          (''different kinds: '' @ Kind existedSpec @ '', '' @ Kind sp) fresh))
               else
                 (let s1 = s_putObject s sp;
                      (s2, w1) = upgradeConfigVersion s1 fresh
                  in (s2, Responded w1))))"

subsection \<open>The handlers that read\<close>

definition getObject :: "ctx \<Rightarrow> 'st server \<Rightarrow> result" where
  "getObject c s =
     (let name = ParamName c in
      case s_getObject s name of
        None \<Rightarrow> Responded (HandleAPIError StatusNotFound ''not found'' fresh)
      | Some sp \<Rightarrow>
          Responded (ctx_Write (YAMLConfig sp) (ctx_Header ContentType ''text/vnd.yaml'' fresh)))"

text \<open>
  \<^verbatim>\<open>specList\<close>: \<^verbatim>\<open>Less\<close> compares the names as Go compares strings, byte by byte.
  \<^verbatim>\<open>sort.Sort\<close> belongs to the Go library; it is modelled by insertion with \<open>Less\<close>.
  Go's sort is not stable, but the names of a registry are distinct, and then the
  sorted list is the same for every sorting algorithm.
\<close>

definition Less :: "spec \<Rightarrow> spec \<Rightarrow> bool" where
  "Less a b = (Name a < Name b)"

fun insertSpec :: "spec \<Rightarrow> spec list \<Rightarrow> spec list" where
  "insertSpec x [] = [x]"
| "insertSpec x (y # ys) = (if Less x y then x # y # ys else y # insertSpec x ys)"

fun sort_Sort :: "spec list \<Rightarrow> spec list" where
  "sort_Sort [] = []"
| "sort_Sort (x # xs) = insertSpec x (sort_Sort xs)"

text \<open>
  \<^verbatim>\<open>specList.Marshal\<close>: every Spec's YAML is unmarshalled into a map, in order, the first
  failure ending the loop; the list of maps is marshalled. \<open>unm\<close> is \<^verbatim>\<open>yaml.Unmarshal\<close>
  into a map, \<open>mar\<close> is \<^verbatim>\<open>yaml.Marshal\<close> of the list of maps.
\<close>

fun unmarshalAll :: "(string \<Rightarrow> string + 'm) \<Rightarrow> spec list \<Rightarrow> string + 'm list" where
  "unmarshalAll unm [] = Inr []"
| "unmarshalAll unm (sp # sps) =
     (case unm (YAMLConfig sp) of
        Inl err \<Rightarrow> Inl (''unmarshal '' @ YAMLConfig sp @ '' to yaml failed: '' @ err)
      | Inr m \<Rightarrow>
          (case unmarshalAll unm sps of
             Inl err \<Rightarrow> Inl err
           | Inr ms \<Rightarrow> Inr (m # ms)))"

definition Marshal ::
  "(string \<Rightarrow> string + 'm) \<Rightarrow> ('m list \<Rightarrow> string + string) \<Rightarrow> spec list \<Rightarrow> string + string" where
  "Marshal unm mar sps =
     (case unmarshalAll unm sps of
        Inl err \<Rightarrow> Inl err
      | Inr specs \<Rightarrow>
          (case mar specs of
             Inl err \<Rightarrow> Inl err
           | Inr buff \<Rightarrow> Inr buff))"

definition listObjects ::
  "(string \<Rightarrow> string + 'm) \<Rightarrow> ('m list \<Rightarrow> string + string) \<Rightarrow> 'st server \<Rightarrow> result" where
  "listObjects unm mar s =
     (let specs = sort_Sort (s_listObjects s) in
      case Marshal unm mar specs of
        Inl err \<Rightarrow> Panicked err
      | Inr buff \<Rightarrow>
          Responded (ctx_Write buff (ctx_Header ContentType ''text/vnd.yaml'' fresh)))"

text \<open>
  \<^verbatim>\<open>getStatusObject\<close> takes no lock: the registry is read at one moment and the status
  view at a later one, and another request may run in between. \<open>getStatusObject_at\<close>
  has both states, the one the existence check sees and the one the status fetch sees;
  \<open>getStatusObject\<close> is the handler running undisturbed. \<open>mar\<close> is \<^verbatim>\<open>yaml.Marshal\<close> of
  the status.
\<close>

definition getStatusObject_at ::
  "('st option \<Rightarrow> string + string) \<Rightarrow> ctx \<Rightarrow> 'st server \<Rightarrow> 'st server \<Rightarrow> result" where
  "getStatusObject_at mar c s_check s_fetch =
     (let name = ParamName c in
      case s_getObject s_check name of
        None \<Rightarrow> Responded (HandleAPIError StatusNotFound ''not found'' fresh)
      | Some sp \<Rightarrow>
          (let status = s_getStatusObject s_fetch name in
           case mar status of
             Inl err \<Rightarrow> Panicked err
           | Inr buff \<Rightarrow>
               Responded (ctx_Write buff (ctx_Header ContentType ''text/vnd.yaml'' fresh))))"

definition getStatusObject ::
  "('st option \<Rightarrow> string + string) \<Rightarrow> ctx \<Rightarrow> 'st server \<Rightarrow> result" where
  "getStatusObject mar c s = getStatusObject_at mar c s s"

definition listStatusObjects ::
  "((string \<rightharpoonup> 'st) \<Rightarrow> string + string) \<Rightarrow> 'st server \<Rightarrow> result" where
  "listStatusObjects mar s =
     (let status = s_listStatusObjects s in
      case mar status of
        Inl err \<Rightarrow> Panicked err
      | Inr buff \<Rightarrow>
          Responded (ctx_Write buff (ctx_Header ContentType ''text/vnd.yaml'' fresh)))"

text \<open>\<open>kinds\<close> is \<^verbatim>\<open>supervisor.ObjectKinds()\<close>.\<close>

definition listObjectKinds :: "string list \<Rightarrow> (string list \<Rightarrow> string + string) \<Rightarrow> result" where
  "listObjectKinds kinds mar =
     (case mar kinds of
        Inl err \<Rightarrow> Panicked err
      | Inr buff \<Rightarrow> Responded (ctx_Write buff fresh))"

subsection \<open>The routes\<close>

text \<open>
  \<^verbatim>\<open>setupObjectAPIs\<close> registers one handler for each of eight routes. \<open>deps\<close> collects
  the functions of other packages that the handlers call.
\<close>

datatype api =
    ListObjectKinds
  | CreateObject
  | ListObjects
  | GetObject
  | UpdateObject
  | DeleteObject
  | ListStatusObjects
  | GetStatusObject

record ('m, 'st) deps =
  d_NewSpec :: "string \<Rightarrow> string + spec"
  d_Unmarshal :: "string \<Rightarrow> string + 'm"
  d_MarshalSpecs :: "'m list \<Rightarrow> string + string"
  d_MarshalStatus :: "'st option \<Rightarrow> string + string"
  d_MarshalStatuses :: "(string \<rightharpoonup> 'st) \<Rightarrow> string + string"
  d_ObjectKinds :: "string list"
  d_MarshalKinds :: "string list \<Rightarrow> string + string"

definition serve :: "('m, 'st) deps \<Rightarrow> api \<Rightarrow> ctx \<Rightarrow> 'st server \<Rightarrow> 'st server \<times> result" where
  "serve d h c s =
     (case h of
        ListObjectKinds \<Rightarrow> (s, listObjectKinds (d_ObjectKinds d) (d_MarshalKinds d))
      | CreateObject \<Rightarrow> createObject (d_NewSpec d) c s
      | ListObjects \<Rightarrow> (s, listObjects (d_Unmarshal d) (d_MarshalSpecs d) s)
      | GetObject \<Rightarrow> (s, getObject c s)
      | UpdateObject \<Rightarrow> updateObject (d_NewSpec d) c s
      | DeleteObject \<Rightarrow> deleteObject c s
      | ListStatusObjects \<Rightarrow> (s, listStatusObjects (d_MarshalStatuses d) s)
      | GetStatusObject \<Rightarrow> (s, getStatusObject (d_MarshalStatus d) c s))"

text \<open>A sequence of requests, served one after the other.\<close>

fun run ::
  "('m, 'st) deps \<Rightarrow> (api \<times> ctx) list \<Rightarrow> 'st server \<Rightarrow> 'st server \<times> result list" where
  "run d [] s = (s, [])"
| "run d ((h, c) # reqs) s =
     (let (s1, r) = serve d h c s;
          (s2, rs) = run d reqs s1
      in (s2, r # rs))"

text \<open>
  A mutation is a create, an update or a delete. A request is accepted when it is
  answered with a status below 400. The version a response returns is the value of its
  \<^verbatim>\<open>ConfigVersionKey\<close> header.
\<close>

definition isMutation :: "api \<Rightarrow> bool" where
  "isMutation h = (h = CreateObject \<or> h = UpdateObject \<or> h = DeleteObject)"

definition accepted :: "result \<Rightarrow> bool" where
  "accepted r = (case r of Responded w \<Rightarrow> StatusCode w < 400 | Panicked err \<Rightarrow> False)"

definition returnedVersion :: "result \<Rightarrow> string option" where
  "returnedVersion r = (case r of Responded w \<Rightarrow> Header w ConfigVersionKey | Panicked err \<Rightarrow> None)"

definition returnedVersions :: "result list \<Rightarrow> string list" where
  "returnedVersions rs = List.map_filter returnedVersion rs"

definition acceptedMutations :: "(api \<times> ctx) list \<Rightarrow> result list \<Rightarrow> nat" where
  "acceptedMutations reqs rs =
     length (filter (\<lambda>(req, r). isMutation (fst req) \<and> accepted r) (zip reqs rs))"

subsection \<open>A concrete setting for the examples\<close>

text \<open>
  A small parser standing in for \<^verbatim>\<open>supervisor.NewSpec\<close> in the examples: the body is the
  name, a space, the kind, and possibly a space and more; the body itself is kept as the
  canonical form.
\<close>

definition exNewSpec :: "string \<Rightarrow> string + spec" where
  "exNewSpec b =
     (let n = takeWhile (\<lambda>ch. ch \<noteq> CHR '' '') b in
      if n = [] then Inl ''no name''
      else Inr \<lparr>Name = n,
                Kind = takeWhile (\<lambda>ch. ch \<noteq> CHR '' '') (drop (length n + 1) b),
                YAMLConfig = b\<rparr>)"

text \<open>The example parser reads its canonical forms back, so it is a \<open>parser\<close>.\<close>

lift_definition exParser :: parser is exNewSpec
proof -
  fix b sp assume a: "exNewSpec b = Inr sp"
  then have "YAMLConfig sp = b"
    by (auto simp: exNewSpec_def Let_def split: if_splits)
  with a show "exNewSpec (YAMLConfig sp) = Inr sp" by simp
qed

definition exDeps :: "(string, nat) deps" where
  "exDeps = \<lparr>d_NewSpec = exNewSpec,
             d_Unmarshal = (\<lambda>y. if y = [] then Inl ''empty document'' else Inr y),
             d_MarshalSpecs = (\<lambda>ms. Inr (concat (map (\<lambda>m. ''- '' @ m @ ''; '') ms))),
             d_MarshalStatus = (\<lambda>st. case st of None \<Rightarrow> Inr ''null'' | Some n \<Rightarrow>
                                  if n = 0 then Inl ''cannot marshal'' else Inr ''up''),
             d_MarshalStatuses = (\<lambda>v. if v ''bad'' = None then Inr ''{}'' else Inl ''cannot marshal''),
             d_ObjectKinds = [''HTTPServer'', ''Pipeline''],
             d_MarshalKinds = (\<lambda>ks. Inr (concat ks))\<rparr>"

definition exServer :: "nat server" where
  "exServer = \<lparr>objects = [], configVersion = 0, statusView = Map.empty\<rparr>"

definition exReq :: "string \<Rightarrow> string \<Rightarrow> ctx" where
  "exReq name body = \<lparr>ReadAll = Inr body, ParamName = name, Path = ''/objects''\<rparr>"

text \<open>
  The scenario of the specification: create svc1, get it, update it, try to change its
  kind, delete it, get it again.
\<close>

definition exScenario :: "(api \<times> ctx) list" where
  "exScenario =
     [(CreateObject, exReq [] ''svc1 Pipeline v1''),
      (GetObject, exReq ''svc1'' []),
      (UpdateObject, exReq ''svc1'' ''svc1 Pipeline v2''),
      (UpdateObject, exReq ''svc1'' ''svc1 Other v3''),
      (DeleteObject, exReq ''svc1'' []),
      (GetObject, exReq ''svc1'' [])]"

definition exSpec :: "string \<Rightarrow> string \<Rightarrow> string \<Rightarrow> spec" where
  "exSpec n k v = \<lparr>Name = n, Kind = k, YAMLConfig = n @ '' '' @ k @ '' '' @ v\<rparr>"

text \<open>A server holding the given Specs, in this order, at the given version.\<close>

definition exHolding :: "spec list \<Rightarrow> int \<Rightarrow> nat server" where
  "exHolding sps v =
     \<lparr>objects = map (\<lambda>sp. (Name sp, sp)) sps, configVersion = v, statusView = Map.empty\<rparr>"

text \<open>Creating c, a and b, in this order, then listing.\<close>

definition exCreates :: "(api \<times> ctx) list" where
  "exCreates =
     [(CreateObject, exReq [] ''c K v''),
      (CreateObject, exReq [] ''a K v''),
      (CreateObject, exReq [] ''b K v''),
      (ListObjects, exReq [] [])]"

text \<open>A server running svc1, whose status is known to the status view.\<close>

definition exRunning :: "nat server" where
  "exRunning =
     \<lparr>objects = [(''svc1'', exSpec ''svc1'' ''Pipeline'' ''v1'')], configVersion = 1,
      statusView = [''svc1'' \<mapsto> 7]\<rparr>"

text \<open>
  A server whose stored state cannot be serialized by the example marshallers: the
  stored YAML is an empty document, and the statuses are ones they reject.
\<close>

definition exBroken :: "nat server" where
  "exBroken =
     \<lparr>objects = [(''x'', \<lparr>Name = ''x'', Kind = ''K'', YAMLConfig = []\<rparr>)], configVersion = 1,
      statusView = [''x'' \<mapsto> 0, ''bad'' \<mapsto> 1]\<rparr>"

section \<open>Properties\<close>

subsection \<open>The registry methods\<close>

lemma s_getObject_put:
  "s_getObject (s_putObject s sp) n = (if n = Name sp then Some sp else s_getObject s n)"
  by (simp add: s_getObject_def s_putObject_def update_conv')

lemma s_getObject_delete:
  "s_getObject (s_deleteObject s name) n = (if n = name then None else s_getObject s n)"
  by (simp add: s_getObject_def s_deleteObject_def delete_conv')

lemma s_getObject_version [simp]:
  "s_getObject (s\<lparr>configVersion := v\<rparr>) n = s_getObject s n"
  by (simp add: s_getObject_def)

lemma upgradeConfigVersion_eq:
  "upgradeConfigVersion s w =
     (s\<lparr>configVersion := configVersion s + 1\<rparr>,
      w\<lparr>Header := (Header w)(ConfigVersionKey \<mapsto> sprintf_d (configVersion s + 1))\<rparr>)"
  by (simp add: upgradeConfigVersion_def s_plusOneVersion_def ctx_Header_def Let_def)

subsection \<open>The outcomes of the handlers, branch by branch\<close>

lemma createObject_bad:
  "readObjectSpec NewSpec c = Inl err \<Longrightarrow>
   createObject NewSpec c s = (s, Responded (HandleAPIError StatusBadRequest err fresh))"
  by (simp add: createObject_def)

lemma createObject_conflict:
  "readObjectSpec NewSpec c = Inr sp \<Longrightarrow> s_getObject s (Name sp) = Some old \<Longrightarrow>
   createObject NewSpec c s =
     (s, Responded (HandleAPIError StatusConflict (''conflict name: '' @ Name sp) fresh))"
  by (simp add: createObject_def)

lemma createObject_ok:
  "readObjectSpec NewSpec c = Inr sp \<Longrightarrow> s_getObject s (Name sp) = None \<Longrightarrow>
   createObject NewSpec c s =
     ((s_putObject s sp)\<lparr>configVersion := configVersion s + 1\<rparr>,
      Responded \<lparr>StatusCode = StatusCreated,
                 Header = [ConfigVersionKey \<mapsto> sprintf_d (configVersion s + 1),
                           Location \<mapsto> Path c @ ''/'' @ Name sp],
                 Written = NoBody\<rparr>)"
  by (simp add: createObject_def upgradeConfigVersion_eq ctx_StatusCode_def ctx_Header_def
      fresh_def s_putObject_def Let_def)

lemma updateObject_bad:
  "readObjectSpec NewSpec c = Inl err \<Longrightarrow>
   updateObject NewSpec c s = (s, Responded (HandleAPIError StatusBadRequest err fresh))"
  by (simp add: updateObject_def)

lemma updateObject_notfound:
  "readObjectSpec NewSpec c = Inr sp \<Longrightarrow> s_getObject s (Name sp) = None \<Longrightarrow>
   updateObject NewSpec c s =
     (s, Responded (HandleAPIError StatusNotFound ''not found'' fresh))"
  by (simp add: updateObject_def)

lemma updateObject_kind:
  "readObjectSpec NewSpec c = Inr sp \<Longrightarrow> s_getObject s (Name sp) = Some old \<Longrightarrow>
   Kind old \<noteq> Kind sp \<Longrightarrow>
   updateObject NewSpec c s =
     (s, Responded (HandleAPIError StatusBadRequest
                      (''different kinds: '' @ Kind old @ '', '' @ Kind sp) fresh))"
  by (simp add: updateObject_def)

lemma updateObject_ok:
  "readObjectSpec NewSpec c = Inr sp \<Longrightarrow> s_getObject s (Name sp) = Some old \<Longrightarrow>
   Kind old = Kind sp \<Longrightarrow>
   updateObject NewSpec c s =
     ((s_putObject s sp)\<lparr>configVersion := configVersion s + 1\<rparr>,
      Responded \<lparr>StatusCode = StatusOK,
                 Header = [ConfigVersionKey \<mapsto> sprintf_d (configVersion s + 1)],
                 Written = NoBody\<rparr>)"
  by (simp add: updateObject_def upgradeConfigVersion_eq fresh_def s_putObject_def Let_def)

lemma deleteObject_notfound:
  "s_getObject s (ParamName c) = None \<Longrightarrow>
   deleteObject c s = (s, Responded (HandleAPIError StatusNotFound ''not found'' fresh))"
  by (simp add: deleteObject_def)

lemma deleteObject_ok:
  "s_getObject s (ParamName c) = Some sp \<Longrightarrow>
   deleteObject c s =
     ((s_deleteObject s (ParamName c))\<lparr>configVersion := configVersion s + 1\<rparr>,
      Responded \<lparr>StatusCode = StatusOK,
                 Header = [ConfigVersionKey \<mapsto> sprintf_d (configVersion s + 1)],
                 Written = NoBody\<rparr>)"
  by (simp add: deleteObject_def upgradeConfigVersion_eq fresh_def s_deleteObject_def Let_def)

lemma readObjectSpec_Inr:
  "readObjectSpec NewSpec c = Inr sp \<longleftrightarrow>
     (\<exists>b. ReadAll c = Inr b \<and> NewSpec b = Inr sp \<and> (ParamName c = [] \<or> ParamName c = Name sp))"
  by (auto simp: readObjectSpec_def Let_def split: sum.splits)

lemma readObjectSpec_mismatch:
  "ReadAll c = Inr b \<Longrightarrow> NewSpec b = Inr sp \<Longrightarrow> ParamName c \<noteq> [] \<Longrightarrow>
   ParamName c \<noteq> Name sp \<Longrightarrow>
   readObjectSpec NewSpec c = Inl ''inconsistent name in url and spec ''"
  by (simp add: readObjectSpec_def)

subsection \<open>The decimal form of a version determines it\<close>

lemma digit_inj:
  "n < 10 \<Longrightarrow> m < 10 \<Longrightarrow> ''0123456789'' ! n = ''0123456789'' ! m \<Longrightarrow> n = m"
proof -
  have d: "distinct ''0123456789''" by simp
  assume "n < 10" "m < 10" "''0123456789'' ! n = ''0123456789'' ! m"
  with d show ?thesis by (simp add: nth_eq_iff_index_eq)
qed

lemma nat_digits_length: "0 < length (nat_digits n)"
  by (induction n rule: nat_digits.induct) (subst nat_digits.simps, simp)

lemma nat_digits_inj: "nat_digits n = nat_digits m \<Longrightarrow> n = m"
proof (induction n arbitrary: m rule: nat_digits.induct)
  case (1 n)
  show ?case
  proof (cases "n < 10")
    case n: True
    show ?thesis
    proof (cases "m < 10")
      case True
      with n "1.prems" show ?thesis
        by (simp add: nat_digits.simps [of n] nat_digits.simps [of m] digit_inj)
    next
      case False
      with n "1.prems" nat_digits_length [of "m div 10"] show ?thesis
        by (simp add: nat_digits.simps [of n] nat_digits.simps [of m])
    qed
  next
    case n: False
    show ?thesis
    proof (cases "m < 10")
      case True
      with n "1.prems" nat_digits_length [of "n div 10"] show ?thesis
        by (simp add: nat_digits.simps [of n] nat_digits.simps [of m])
    next
      case False
      with n "1.prems" have a: "nat_digits (n div 10) = nat_digits (m div 10)"
        and b: "''0123456789'' ! (n mod 10) = ''0123456789'' ! (m mod 10)"
        by (simp_all add: nat_digits.simps [of n] nat_digits.simps [of m])
      from "1.IH" [OF n a] have "n div 10 = m div 10" .
      moreover from b have "n mod 10 = m mod 10" by (intro digit_inj) simp_all
      ultimately show ?thesis by (metis div_mult_mod_eq)
    qed
  qed
qed

lemma digit_not_minus: "n < 10 \<Longrightarrow> ''0123456789'' ! n \<noteq> CHR ''-''"
proof -
  assume "n < 10"
  then have "''0123456789'' ! n \<in> set ''0123456789''" by (intro nth_mem) simp
  then show ?thesis by auto
qed

lemma nat_digits_hd: "hd (nat_digits n) \<noteq> CHR ''-''"
proof (induction n rule: nat_digits.induct)
  case (1 n)
  show ?case
  proof (cases "n < 10")
    case True
    then show ?thesis by (simp add: nat_digits.simps [of n] digit_not_minus)
  next
    case False
    with 1 nat_digits_length [of "n div 10"] show ?thesis
      by (simp add: nat_digits.simps [of n])
  qed
qed

lemma sprintf_d_inj: "sprintf_d v = sprintf_d u \<Longrightarrow> v = u"
proof -
  assume eq: "sprintf_d v = sprintf_d u"
  consider "v < 0" "u < 0" | "v < 0" "\<not> u < 0" | "\<not> v < 0" "u < 0" | "\<not> v < 0" "\<not> u < 0"
    by blast
  then show ?thesis
  proof cases
    case 1
    with eq have "nat (- v) = nat (- u)" by (simp add: sprintf_d_def nat_digits_inj)
    with 1 show ?thesis by simp
  next
    case 2
    with eq have "hd (nat_digits (nat u)) = CHR ''-''" by (simp add: sprintf_d_def) (metis list.sel(1))
    with nat_digits_hd show ?thesis by blast
  next
    case 3
    with eq have "hd (nat_digits (nat v)) = CHR ''-''" by (simp add: sprintf_d_def)
    with nat_digits_hd show ?thesis by blast
  next
    case 4
    with eq have "nat v = nat u" by (simp add: sprintf_d_def nat_digits_inj)
    with 4 show ?thesis by simp
  qed
qed

subsection \<open>One request and the version\<close>

lemma serve_version:
  assumes "serve d h c s = (s', r)"
  shows "if isMutation h \<and> accepted r
         then configVersion s' = configVersion s + 1
              \<and> returnedVersion r = Some (sprintf_d (configVersion s + 1))
         else configVersion s' = configVersion s \<and> returnedVersion r = None"
proof (cases h)
  case CreateObject
  show ?thesis
  proof (cases "readObjectSpec (d_NewSpec d) c")
    case (Inl err)
    with assms CreateObject show ?thesis
      by (auto simp: serve_def createObject_bad accepted_def returnedVersion_def
          HandleAPIError_def fresh_def StatusBadRequest_def)
  next
    case (Inr sp)
    show ?thesis
    proof (cases "s_getObject s (Name sp)")
      case None
      with assms CreateObject Inr show ?thesis
        by (auto simp: serve_def createObject_ok accepted_def returnedVersion_def
            isMutation_def StatusCreated_def s_putObject_def)
    next
      case (Some old)
      with assms CreateObject Inr show ?thesis
        by (auto simp: serve_def createObject_conflict accepted_def returnedVersion_def
            HandleAPIError_def fresh_def StatusConflict_def)
    qed
  qed
next
  case UpdateObject
  show ?thesis
  proof (cases "readObjectSpec (d_NewSpec d) c")
    case (Inl err)
    with assms UpdateObject show ?thesis
      by (auto simp: serve_def updateObject_bad accepted_def returnedVersion_def
          HandleAPIError_def fresh_def StatusBadRequest_def)
  next
    case (Inr sp)
    show ?thesis
    proof (cases "s_getObject s (Name sp)")
      case None
      with assms UpdateObject Inr show ?thesis
        by (auto simp: serve_def updateObject_notfound accepted_def returnedVersion_def
            HandleAPIError_def fresh_def StatusNotFound_def)
    next
      case (Some old)
      show ?thesis
      proof (cases "Kind old = Kind sp")
        case True
        with assms UpdateObject Inr Some show ?thesis
          by (auto simp: serve_def updateObject_ok accepted_def returnedVersion_def
              isMutation_def StatusOK_def s_putObject_def)
      next
        case False
        with assms UpdateObject Inr Some show ?thesis
          by (auto simp: serve_def updateObject_kind accepted_def returnedVersion_def
              HandleAPIError_def fresh_def StatusBadRequest_def)
      qed
    qed
  qed
next
  case DeleteObject
  show ?thesis
  proof (cases "s_getObject s (ParamName c)")
    case None
    with assms DeleteObject show ?thesis
      by (auto simp: serve_def deleteObject_notfound accepted_def returnedVersion_def
          HandleAPIError_def fresh_def StatusNotFound_def)
  next
    case (Some sp)
    with assms DeleteObject show ?thesis
      by (auto simp: serve_def deleteObject_ok accepted_def returnedVersion_def
          isMutation_def StatusOK_def s_deleteObject_def)
  qed
next
  case ListObjectKinds
  with assms show ?thesis
    by (auto simp: serve_def isMutation_def listObjectKinds_def returnedVersion_def
        ctx_Write_def fresh_def split: sum.splits)
next
  case ListObjects
  with assms show ?thesis
    by (auto simp: serve_def isMutation_def listObjects_def returnedVersion_def
        ctx_Write_def ctx_Header_def fresh_def Let_def split: sum.splits)
next
  case GetObject
  with assms show ?thesis
    by (auto simp: serve_def isMutation_def getObject_def returnedVersion_def
        ctx_Write_def ctx_Header_def HandleAPIError_def fresh_def Let_def split: option.splits)
next
  case ListStatusObjects
  with assms show ?thesis
    by (auto simp: serve_def isMutation_def listStatusObjects_def returnedVersion_def
        ctx_Write_def ctx_Header_def fresh_def Let_def split: sum.splits)
next
  case GetStatusObject
  with assms show ?thesis
    by (auto simp: serve_def isMutation_def getStatusObject_def getStatusObject_at_def
        returnedVersion_def ctx_Write_def ctx_Header_def HandleAPIError_def fresh_def Let_def
        split: sum.splits option.splits)
qed

lemma returnedVersions_Cons:
  "returnedVersions (r # rs) =
     (case returnedVersion r of None \<Rightarrow> returnedVersions rs | Some v \<Rightarrow> v # returnedVersions rs)"
  by (simp add: returnedVersions_def split: option.splits)

lemma acceptedMutations_Cons:
  "acceptedMutations ((h, c) # reqs) (r # rs) =
     (if isMutation h \<and> accepted r then Suc (acceptedMutations reqs rs)
      else acceptedMutations reqs rs)"
  by (simp add: acceptedMutations_def)

lemma run_versions:
  "run d reqs s = (s', rs) \<Longrightarrow>
     length rs = length reqs
   \<and> configVersion s' = configVersion s + int (acceptedMutations reqs rs)
   \<and> returnedVersions rs =
       map sprintf_d [configVersion s + 1 .. configVersion s + int (acceptedMutations reqs rs)]"
proof (induction reqs arbitrary: s s' rs)
  case Nil
  then show ?case by (auto simp: returnedVersions_def acceptedMutations_def map_filter_simps)
next
  case (Cons req reqs)
  obtain h c where req: "req = (h, c)" by (cases req)
  obtain s1 r where step: "serve d h c s = (s1, r)" by (cases "serve d h c s")
  obtain s2 rs1 where rest: "run d reqs s1 = (s2, rs1)" by (cases "run d reqs s1")
  from Cons.prems req step rest have eq: "s' = s2" "rs = r # rs1" by auto
  note ih = Cons.IH [OF rest]
  note sv = serve_version [OF step]
  show ?case
  proof (cases "isMutation h \<and> accepted r")
    case True
    with sv have v: "configVersion s1 = configVersion s + 1"
      and rv: "returnedVersion r = Some (sprintf_d (configVersion s + 1))" by auto
    have "[configVersion s + 1 .. configVersion s + int (Suc (acceptedMutations reqs rs1))]
          = (configVersion s + 1) # [configVersion s1 + 1 .. configVersion s1 + int (acceptedMutations reqs rs1)]"
      by (subst upto_rec1) (auto simp: v algebra_simps)
    with True ih v rv show ?thesis
      by (simp add: eq req acceptedMutations_Cons returnedVersions_Cons)
  next
    case False
    with sv have v: "configVersion s1 = configVersion s"
      and rv: "returnedVersion r = None" by auto
    with False ih show ?thesis
      by (simp add: eq req acceptedMutations_Cons returnedVersions_Cons)
  qed
qed

lemma serve_failed:
  assumes "serve d h c s = (s', r)" and "isMutation h" and "\<not> accepted r"
  shows "s' = s \<and> (\<exists>w. r = Responded w
           \<and> StatusCode w \<in> {StatusBadRequest, StatusNotFound, StatusConflict})"
proof (cases h)
  case CreateObject
  show ?thesis
  proof (cases "readObjectSpec (d_NewSpec d) c")
    case (Inl err)
    with assms CreateObject show ?thesis
      by (auto simp: serve_def createObject_bad HandleAPIError_def)
  next
    case (Inr sp)
    show ?thesis
    proof (cases "s_getObject s (Name sp)")
      case None
      with assms CreateObject Inr show ?thesis
        by (auto simp: serve_def createObject_ok accepted_def StatusCreated_def)
    next
      case (Some old)
      with assms CreateObject Inr show ?thesis
        by (auto simp: serve_def createObject_conflict HandleAPIError_def)
    qed
  qed
next
  case UpdateObject
  show ?thesis
  proof (cases "readObjectSpec (d_NewSpec d) c")
    case (Inl err)
    with assms UpdateObject show ?thesis
      by (auto simp: serve_def updateObject_bad HandleAPIError_def)
  next
    case (Inr sp)
    show ?thesis
    proof (cases "s_getObject s (Name sp)")
      case None
      with assms UpdateObject Inr show ?thesis
        by (auto simp: serve_def updateObject_notfound HandleAPIError_def)
    next
      case (Some old)
      show ?thesis
      proof (cases "Kind old = Kind sp")
        case True
        with assms UpdateObject Inr Some show ?thesis
          by (auto simp: serve_def updateObject_ok accepted_def StatusOK_def)
      next
        case False
        with assms UpdateObject Inr Some show ?thesis
          by (auto simp: serve_def updateObject_kind HandleAPIError_def)
      qed
    qed
  qed
next
  case DeleteObject
  show ?thesis
  proof (cases "s_getObject s (ParamName c)")
    case None
    with assms DeleteObject show ?thesis
      by (auto simp: serve_def deleteObject_notfound HandleAPIError_def)
  next
    case (Some sp)
    with assms DeleteObject show ?thesis
      by (auto simp: serve_def deleteObject_ok accepted_def StatusOK_def)
  qed
qed (use assms in \<open>simp_all add: isMutation_def\<close>)

lemma serve_read:
  "serve d h c s = (s', r) \<Longrightarrow> \<not> isMutation h \<Longrightarrow> s' = s"
  by (cases h) (auto simp: serve_def isMutation_def)

subsection \<open>Sorting, marshalling and the keys of the registry\<close>

lemma mset_insertSpec: "mset (insertSpec x xs) = add_mset x (mset xs)"
  by (induction xs) auto

lemma mset_sort_Sort: "mset (sort_Sort xs) = mset xs"
  by (induction xs) (auto simp: mset_insertSpec)

lemma set_insertSpec: "set (insertSpec x xs) = insert x (set xs)"
  by (induction xs) auto

lemma sorted_insertSpec:
  "sorted (map Name xs) \<Longrightarrow> sorted (map Name (insertSpec x xs))"
  by (induction xs) (auto simp: Less_def set_insertSpec)

lemma sorted_sort_Sort: "sorted (map Name (sort_Sort xs))"
  by (induction xs) (auto simp: sorted_insertSpec)

lemma sort_Sort_unique:
  assumes d: "distinct (map Name xs)" and m: "mset ys = mset xs"
  shows "sort_Sort ys = sort_Sort xs"
proof -
  have mn: "mset (map Name ys) = mset (map Name xs)"
    using m by simp
  with d have dy: "distinct (map Name ys)"
    by (metis mset_eq_imp_distinct_iff)
  have sx: "mset (map Name (sort_Sort xs)) = mset (map Name xs)"
    by (simp add: mset_sort_Sort)
  have sy: "mset (map Name (sort_Sort ys)) = mset (map Name xs)"
    by (simp add: mset_sort_Sort m)
  from sx d have dsx: "distinct (map Name (sort_Sort xs))"
    by (metis mset_eq_imp_distinct_iff)
  from sy d have dsy: "distinct (map Name (sort_Sort ys))"
    by (metis mset_eq_imp_distinct_iff)
  have "set (map Name (sort_Sort ys)) = set (map Name (sort_Sort xs))"
    using sx sy by (metis mset_eq_setD)
  with dsx dsy have names: "map Name (sort_Sort ys) = map Name (sort_Sort xs)"
    by (intro sorted_distinct_set_unique sorted_sort_Sort)
  have "set (sort_Sort ys) = set (sort_Sort xs)"
    using m by (metis mset_sort_Sort mset_eq_setD)
  moreover from dsx have "inj_on Name (set (sort_Sort xs))"
    by (simp add: distinct_map)
  ultimately have "inj_on Name (set (sort_Sort ys) \<union> set (sort_Sort xs))"
    by simp
  with names show ?thesis
    by (simp add: inj_on_map_eq_map)
qed

lemma unmarshalAll_Inr:
  "unmarshalAll unm sps = Inr ms \<longleftrightarrow> map (\<lambda>sp. unm (YAMLConfig sp)) sps = map Inr ms"
proof (induction sps arbitrary: ms)
  case Nil
  show ?case by auto
next
  case (Cons sp sps)
  show ?case
  proof (cases "unm (YAMLConfig sp)")
    case (Inl err)
    then show ?thesis by (cases ms) auto
  next
    case m: (Inr m)
    show ?thesis
    proof (cases "unmarshalAll unm sps")
      case (Inl err)
      with Cons.IH have "map (\<lambda>sp. unm (YAMLConfig sp)) sps \<noteq> map Inr ms'" for ms'
        by simp
      with m Inl show ?thesis by (cases ms) auto
    next
      case (Inr ms')
      with Cons.IH [of ms'] have e: "map (\<lambda>sp. unm (YAMLConfig sp)) sps = map Inr ms'"
        by simp
      have "map Inr ms' = map Inr ms'' \<longleftrightarrow> ms' = ms''" for ms''
        by (simp add: inj_map_eq_map)
      with m Inr e show ?thesis by (cases ms) auto
    qed
  qed
qed

lemma wellKeyed_names:
  "wellKeyed s \<Longrightarrow> distinct (map Name (s_listObjects s))"
proof -
  assume w: "wellKeyed s"
  then have e: "map (Name \<circ> snd) (objects s) = map fst (objects s)"
    by (auto simp: wellKeyed_def list_all_iff)
  from w show ?thesis
    by (simp add: s_listObjects_def wellKeyed_def e)
qed

lemma listObjects_Responded:
  "listObjects unm mar s = Responded w \<longleftrightarrow>
     (\<exists>ms buff. unmarshalAll unm (sort_Sort (s_listObjects s)) = Inr ms \<and> mar ms = Inr buff
        \<and> w = \<lparr>StatusCode = StatusOK, Header = [ContentType \<mapsto> ''text/vnd.yaml''],
               Written = Bytes buff\<rparr>)"
  by (auto simp: listObjects_def Marshal_def Let_def ctx_Write_def ctx_Header_def fresh_def
      split: sum.splits)

lemma list_all_update:
  "list_all P al \<Longrightarrow> P (k, v) \<Longrightarrow> list_all P (AList.update k v al)"
  by (induction al) auto

lemma wellKeyed_put: "wellKeyed s \<Longrightarrow> wellKeyed (s_putObject s sp)"
  by (simp add: wellKeyed_def s_putObject_def distinct_update list_all_update)

lemma wellKeyed_delete: "wellKeyed s \<Longrightarrow> wellKeyed (s_deleteObject s name)"
  by (simp add: wellKeyed_def s_deleteObject_def distinct_delete)
    (simp add: AList.delete_eq list_all_iff)

lemma wellKeyed_version [simp]: "wellKeyed (s\<lparr>configVersion := v\<rparr>) = wellKeyed s"
  by (simp add: wellKeyed_def)

lemma serve_wellKeyed:
  assumes "wellKeyed s" and "serve d h c s = (s', r)"
  shows "wellKeyed s'"
proof (cases h)
  case CreateObject
  with assms show ?thesis
    by (auto simp: serve_def createObject_def upgradeConfigVersion_eq Let_def wellKeyed_put
        split: sum.splits option.splits)
next
  case UpdateObject
  with assms show ?thesis
    by (auto simp: serve_def updateObject_def upgradeConfigVersion_eq Let_def wellKeyed_put
        split: sum.splits option.splits if_splits)
next
  case DeleteObject
  with assms show ?thesis
    by (auto simp: serve_def deleteObject_def upgradeConfigVersion_eq Let_def wellKeyed_delete
        split: option.splits)
qed (use assms in \<open>auto simp: serve_def\<close>)

lemma run_wellKeyed:
  "wellKeyed s \<Longrightarrow> run d reqs s = (s', rs) \<Longrightarrow> wellKeyed s'"
proof (induction reqs arbitrary: s s' rs)
  case Nil
  then show ?case by simp
next
  case (Cons req reqs)
  obtain h c where req: "req = (h, c)" by (cases req)
  obtain s1 r where step: "serve d h c s = (s1, r)" by (cases "serve d h c s")
  obtain s2 rs1 where rest: "run d reqs s1 = (s2, rs1)" by (cases "run d reqs s1")
  from Cons.prems req step rest have eq: "s' = s2" by auto
  from serve_wellKeyed [OF Cons.prems(1) step] have "wellKeyed s1" .
  from Cons.IH [OF this rest] eq show ?case by simp
qed

subsection \<open>The reading handlers, branch by branch\<close>

lemma parse_canonical: "parse P b = Inr sp \<Longrightarrow> parse P (YAMLConfig sp) = Inr sp"
  using parse [of P] by blast

lemma getObject_cases:
  "getObject c s =
     (case s_getObject s (ParamName c) of
        None \<Rightarrow> Responded \<lparr>StatusCode = StatusNotFound, Header = Map.empty,
                            Written = APIErr StatusNotFound ''not found''\<rparr>
      | Some sp \<Rightarrow> Responded \<lparr>StatusCode = StatusOK, Header = [ContentType \<mapsto> ''text/vnd.yaml''],
                               Written = Bytes (YAMLConfig sp)\<rparr>)"
  by (simp add: getObject_def HandleAPIError_def ctx_Write_def ctx_Header_def fresh_def Let_def
      split: option.splits)

lemma getStatusObject_at_cases:
  "getStatusObject_at mar c s1 s2 =
     (case s_getObject s1 (ParamName c) of
        None \<Rightarrow> Responded \<lparr>StatusCode = StatusNotFound, Header = Map.empty,
                            Written = APIErr StatusNotFound ''not found''\<rparr>
      | Some sp \<Rightarrow>
          (case mar (s_getStatusObject s2 (ParamName c)) of
             Inl err \<Rightarrow> Panicked err
           | Inr buff \<Rightarrow> Responded \<lparr>StatusCode = StatusOK,
                                     Header = [ContentType \<mapsto> ''text/vnd.yaml''],
                                     Written = Bytes buff\<rparr>))"
  by (simp add: getStatusObject_at_def HandleAPIError_def ctx_Write_def ctx_Header_def fresh_def
      Let_def split: option.splits sum.splits)

subsection \<open>Evaluating the examples\<close>

lemmas ex_defs = exDeps_def exNewSpec_def exServer_def exReq_def exSpec_def exHolding_def

lemmas handler_defs = serve_def createObject_def updateObject_def deleteObject_def getObject_def
  readObjectSpec_def upgradeConfigVersion_def s_plusOneVersion_def s_getObject_def
  s_putObject_def s_deleteObject_def HandleAPIError_def ctx_Header_def ctx_Write_def
  ctx_StatusCode_def fresh_def StatusOK_def StatusCreated_def StatusBadRequest_def
  StatusNotFound_def StatusConflict_def sprintf_d_def nat_digits.simps AList.delete_eq

lemma exScenario_run:
  "run exDeps exScenario exServer =
     (\<lparr>objects = [], configVersion = 3, statusView = Map.empty\<rparr>,
      [Responded \<lparr>StatusCode = 201,
                  Header = [ConfigVersionKey \<mapsto> ''1'', Location \<mapsto> ''/objects/svc1''],
                  Written = NoBody\<rparr>,
       Responded \<lparr>StatusCode = 200, Header = [ContentType \<mapsto> ''text/vnd.yaml''],
                  Written = Bytes ''svc1 Pipeline v1''\<rparr>,
       Responded \<lparr>StatusCode = 200, Header = [ConfigVersionKey \<mapsto> ''2''], Written = NoBody\<rparr>,
       Responded \<lparr>StatusCode = 400, Header = Map.empty,
                  Written = APIErr 400 ''different kinds: Pipeline, Other''\<rparr>,
       Responded \<lparr>StatusCode = 200, Header = [ConfigVersionKey \<mapsto> ''3''], Written = NoBody\<rparr>,
       Responded \<lparr>StatusCode = 404, Header = Map.empty, Written = APIErr 404 ''not found''\<rparr>])"
  by (simp add: exScenario_def ex_defs handler_defs Let_def)

lemmas list_defs = listObjects_def Marshal_def s_listObjects_def Less_def

lemma exCreates_run:
  "run exDeps exCreates exServer =
     (exHolding [exSpec ''c'' ''K'' ''v'', exSpec ''a'' ''K'' ''v'', exSpec ''b'' ''K'' ''v''] 3,
      [Responded \<lparr>StatusCode = 201,
                  Header = [ConfigVersionKey \<mapsto> ''1'', Location \<mapsto> ''/objects/c''],
                  Written = NoBody\<rparr>,
       Responded \<lparr>StatusCode = 201,
                  Header = [ConfigVersionKey \<mapsto> ''2'', Location \<mapsto> ''/objects/a''],
                  Written = NoBody\<rparr>,
       Responded \<lparr>StatusCode = 201,
                  Header = [ConfigVersionKey \<mapsto> ''3'', Location \<mapsto> ''/objects/b''],
                  Written = NoBody\<rparr>,
       Responded \<lparr>StatusCode = 200, Header = [ContentType \<mapsto> ''text/vnd.yaml''],
                  Written = Bytes ''- a K v; - b K v; - c K v; ''\<rparr>])"
  by (simp add: exCreates_def ex_defs handler_defs list_defs Let_def)

lemmas status_defs = getStatusObject_def getStatusObject_at_def s_getStatusObject_def
  listStatusObjects_def s_listStatusObjects_def listObjectKinds_def

section \<open>The claims\<close>

text \<open>
  C1. Along every sequence of requests the versions returned in the response header are
  the consecutive integers that follow the starting version, one for each accepted
  mutation (create, update, delete): they are strictly increasing, none is skipped and
  none is returned twice. One request at a time: an accepted mutation advances the
  version by exactly one and returns the new version; every other request, in particular
  a mutation that fails (malformed input, name mismatch, Conflict, NotFound, kind
  mismatch, all answered 400, 404 or 409), leaves the server as it was and returns no
  version.
\<close>

theorem configVersion_strictly_increasing:
  assumes "run d reqs s = (s', rs)"
  shows "(let n = acceptedMutations reqs rs;
              vs = [configVersion s + 1 .. configVersion s + int n]
          in returnedVersions rs = map sprintf_d vs \<and> length vs = n \<and> sorted_wrt (<) vs
             \<and> distinct (returnedVersions rs) \<and> configVersion s' = configVersion s + int n)
       \<and> (\<forall>h c s0 s1 r. serve d h c s0 = (s1, r) \<longrightarrow>
            (if isMutation h \<and> accepted r
             then configVersion s1 = configVersion s0 + 1
                  \<and> returnedVersion r = Some (sprintf_d (configVersion s1))
             else s1 = s0 \<and> returnedVersion r = None
                  \<and> (isMutation h \<longrightarrow> (\<exists>w. r = Responded w
                        \<and> StatusCode w \<in> {StatusBadRequest, StatusNotFound, StatusConflict}))))"
proof -
  let ?n = "acceptedMutations reqs rs"
  let ?vs = "[configVersion s + 1 .. configVersion s + int ?n]"
  from run_versions [OF assms]
  have v: "configVersion s' = configVersion s + int ?n"
    and rv: "returnedVersions rs = map sprintf_d ?vs" by simp_all
  have "inj_on sprintf_d (set ?vs)"
    by (rule inj_onI) (rule sprintf_d_inj)
  then have "distinct (map sprintf_d ?vs)"
    by (simp add: distinct_map)
  with rv have d: "distinct (returnedVersions rs)" by simp
  have run_part: "let n = ?n; vs = [configVersion s + 1 .. configVersion s + int n]
          in returnedVersions rs = map sprintf_d vs \<and> length vs = n \<and> sorted_wrt (<) vs
             \<and> distinct (returnedVersions rs) \<and> configVersion s' = configVersion s + int n"
    using v rv d by (simp add: Let_def)
  have step_part: "if isMutation h \<and> accepted r
             then configVersion s1 = configVersion s0 + 1
                  \<and> returnedVersion r = Some (sprintf_d (configVersion s1))
             else s1 = s0 \<and> returnedVersion r = None
                  \<and> (isMutation h \<longrightarrow> (\<exists>w. r = Responded w
                        \<and> StatusCode w \<in> {StatusBadRequest, StatusNotFound, StatusConflict}))"
    if step: "serve d h c s0 = (s1, r)" for h c s0 s1 r
  proof (cases "isMutation h \<and> accepted r")
    case True
    with serve_version [OF step] show ?thesis by simp
  next
    case False
    from False serve_version [OF step] have none: "returnedVersion r = None" by simp
    show ?thesis
    proof (cases "isMutation h")
      case True
      with False have "\<not> accepted r" by simp
      from serve_failed [OF step True this] none False show ?thesis by simp
    next
      case nm: False
      from serve_read [OF step nm] none nm show ?thesis by simp
    qed
  qed
  from run_part step_part show ?thesis by blast
qed

theorem configVersion_strictly_increasing_witness:
  "returnedVersions (snd (run exDeps exScenario exServer)) = [''1'', ''2'', ''3'']
   \<and> acceptedMutations exScenario (snd (run exDeps exScenario exServer)) = 3
   \<and> configVersion (fst (run exDeps exScenario exServer)) = 3
   \<and> serve exDeps UpdateObject (exReq ''svc1'' ''svc1 Other v3'')
        \<lparr>objects = [(''svc1'', \<lparr>Name = ''svc1'', Kind = ''Pipeline'', YAMLConfig = ''svc1 Pipeline v2''\<rparr>)],
         configVersion = 2, statusView = Map.empty\<rparr>
      = (\<lparr>objects = [(''svc1'', \<lparr>Name = ''svc1'', Kind = ''Pipeline'', YAMLConfig = ''svc1 Pipeline v2''\<rparr>)],
          configVersion = 2, statusView = Map.empty\<rparr>,
         Responded \<lparr>StatusCode = 400, Header = Map.empty,
                    Written = APIErr 400 ''different kinds: Pipeline, Other''\<rparr>)"
  using configVersion_strictly_increasing [OF exScenario_run]
  by (simp add: exScenario_run returnedVersions_def returnedVersion_def map_filter_simps
      acceptedMutations_def exScenario_def isMutation_def accepted_def
      ex_defs handler_defs Let_def)

text \<open>
  C2. Create, for a request whose body parses to a Spec (and whose path name, if any,
  agrees): when the registry already holds an entry for the Spec's name the answer is
  Conflict and the server (the stored Spec, the version) is as before, with no version in
  the response; when it holds none, the Spec is stored under its name, the other entries
  are as before, the version goes up by one, and the answer is Created with the Location
  header \<^verbatim>\<open>path/name\<close> and the new version in the version header. A second create of the
  same name right after is answered Conflict and changes nothing.
\<close>

theorem createObject_conflict_or_created:
  assumes "readObjectSpec NewSpec c = Inr sp"
  shows "(\<forall>old. s_getObject s (Name sp) = Some old \<longrightarrow>
            (\<exists>w. createObject NewSpec c s = (s, Responded w) \<and> StatusCode w = StatusConflict
                 \<and> Header w ConfigVersionKey = None))
       \<and> (s_getObject s (Name sp) = None \<longrightarrow>
            (\<exists>s' w. createObject NewSpec c s = (s', Responded w)
                 \<and> s_getObject s' (Name sp) = Some sp
                 \<and> (\<forall>n. n \<noteq> Name sp \<longrightarrow> s_getObject s' n = s_getObject s n)
                 \<and> configVersion s' = configVersion s + 1
                 \<and> statusView s' = statusView s
                 \<and> StatusCode w = StatusCreated
                 \<and> Header w Location = Some (Path c @ ''/'' @ Name sp)
                 \<and> Header w ConfigVersionKey = Some (sprintf_d (configVersion s'))
                 \<and> (\<forall>c2 sp2. readObjectSpec NewSpec c2 = Inr sp2 \<and> Name sp2 = Name sp \<longrightarrow>
                       (\<exists>w2. createObject NewSpec c2 s' = (s', Responded w2)
                          \<and> StatusCode w2 = StatusConflict))))"
proof (intro conjI allI impI)
  fix old assume "s_getObject s (Name sp) = Some old"
  from createObject_conflict [OF assms this]
  show "\<exists>w. createObject NewSpec c s = (s, Responded w) \<and> StatusCode w = StatusConflict
                 \<and> Header w ConfigVersionKey = None"
    by (simp add: HandleAPIError_def fresh_def)
next
  assume none: "s_getObject s (Name sp) = None"
  let ?s' = "(s_putObject s sp)\<lparr>configVersion := configVersion s + 1\<rparr>"
  have got: "s_getObject ?s' (Name sp) = Some sp"
    by (simp add: s_getObject_put)
  have again: "\<exists>w2. createObject NewSpec c2 ?s' = (?s', Responded w2) \<and> StatusCode w2 = StatusConflict"
    if "readObjectSpec NewSpec c2 = Inr sp2 \<and> Name sp2 = Name sp" for c2 sp2
    using that got createObject_conflict [of NewSpec c2 sp2 ?s' sp]
    by (simp add: HandleAPIError_def)
  show "\<exists>s' w. createObject NewSpec c s = (s', Responded w)
                 \<and> s_getObject s' (Name sp) = Some sp
                 \<and> (\<forall>n. n \<noteq> Name sp \<longrightarrow> s_getObject s' n = s_getObject s n)
                 \<and> configVersion s' = configVersion s + 1
                 \<and> statusView s' = statusView s
                 \<and> StatusCode w = StatusCreated
                 \<and> Header w Location = Some (Path c @ ''/'' @ Name sp)
                 \<and> Header w ConfigVersionKey = Some (sprintf_d (configVersion s'))
                 \<and> (\<forall>c2 sp2. readObjectSpec NewSpec c2 = Inr sp2 \<and> Name sp2 = Name sp \<longrightarrow>
                       (\<exists>w2. createObject NewSpec c2 s' = (s', Responded w2)
                          \<and> StatusCode w2 = StatusConflict))"
    unfolding createObject_ok [OF assms none]
    apply (intro exI conjI)
            apply (rule refl)
           apply (rule got)
          apply (simp add: s_getObject_put)
         apply simp
        apply (simp add: s_putObject_def)
       apply simp
      apply simp
     apply simp
    using again by blast
qed

theorem createObject_conflict_or_created_witness:
  "readObjectSpec exNewSpec (exReq [] ''svc1 Other v9'') = Inr (exSpec ''svc1'' ''Other'' ''v9'')
   \<and> s_getObject exServer ''svc1'' = None
   \<and> createObject exNewSpec (exReq [] ''svc1 Other v9'') exServer
     = (exHolding [exSpec ''svc1'' ''Other'' ''v9''] 1,
        Responded \<lparr>StatusCode = 201,
                   Header = [ConfigVersionKey \<mapsto> ''1'', Location \<mapsto> ''/objects/svc1''],
                   Written = NoBody\<rparr>)
   \<and> s_getObject (exHolding [exSpec ''svc1'' ''Pipeline'' ''v1''] 1) ''svc1''
     = Some (exSpec ''svc1'' ''Pipeline'' ''v1'')
   \<and> createObject exNewSpec (exReq [] ''svc1 Other v9'')
        (exHolding [exSpec ''svc1'' ''Pipeline'' ''v1''] 1)
     = (exHolding [exSpec ''svc1'' ''Pipeline'' ''v1''] 1,
        Responded \<lparr>StatusCode = 409, Header = Map.empty,
                   Written = APIErr 409 ''conflict name: svc1''\<rparr>)"
proof -
  have p: "readObjectSpec exNewSpec (exReq [] ''svc1 Other v9'')
             = Inr (exSpec ''svc1'' ''Other'' ''v9'')"
    by (simp add: ex_defs handler_defs Let_def)
  show ?thesis
    using createObject_conflict_or_created [OF p, of exServer]
      createObject_conflict_or_created [OF p, of "exHolding [exSpec ''svc1'' ''Pipeline'' ''v1''] 1"]
    by (simp add: ex_defs handler_defs Let_def)
qed

text \<open>
  C3. Update, for a request whose body parses to a Spec (and whose path name, if any,
  agrees): when the registry holds no entry for the Spec's name the answer is NotFound,
  whatever the kind, and the server is as before; when the stored entry has another kind
  the answer is the kind-mismatch error (status 400, "different kinds") and the server
  (the stored Spec, the version) is as before; otherwise the entry is replaced with the
  new Spec, the other entries are as before, the version goes up by one and is returned.
\<close>

theorem updateObject_notfound_mismatch_or_replaced:
  assumes "readObjectSpec NewSpec c = Inr sp"
  shows "(s_getObject s (Name sp) = None \<longrightarrow>
            (\<exists>w. updateObject NewSpec c s = (s, Responded w) \<and> StatusCode w = StatusNotFound
                 \<and> Header w ConfigVersionKey = None))
       \<and> (\<forall>old. s_getObject s (Name sp) = Some old \<and> Kind old \<noteq> Kind sp \<longrightarrow>
            (\<exists>w. updateObject NewSpec c s = (s, Responded w) \<and> StatusCode w = StatusBadRequest
                 \<and> Written w = APIErr StatusBadRequest
                                  (''different kinds: '' @ Kind old @ '', '' @ Kind sp)
                 \<and> Header w ConfigVersionKey = None))
       \<and> (\<forall>old. s_getObject s (Name sp) = Some old \<and> Kind old = Kind sp \<longrightarrow>
            (\<exists>s' w. updateObject NewSpec c s = (s', Responded w)
                 \<and> StatusCode w = StatusOK
                 \<and> s_getObject s' (Name sp) = Some sp
                 \<and> (\<forall>n. n \<noteq> Name sp \<longrightarrow> s_getObject s' n = s_getObject s n)
                 \<and> configVersion s' = configVersion s + 1
                 \<and> statusView s' = statusView s
                 \<and> Header w ConfigVersionKey = Some (sprintf_d (configVersion s'))))"
proof (intro conjI allI impI)
  assume "s_getObject s (Name sp) = None"
  from updateObject_notfound [OF assms this]
  show "\<exists>w. updateObject NewSpec c s = (s, Responded w) \<and> StatusCode w = StatusNotFound
                 \<and> Header w ConfigVersionKey = None"
    by (simp add: HandleAPIError_def fresh_def)
next
  fix old assume "s_getObject s (Name sp) = Some old \<and> Kind old \<noteq> Kind sp"
  then have "updateObject NewSpec c s =
     (s, Responded (HandleAPIError StatusBadRequest
                      (''different kinds: '' @ Kind old @ '', '' @ Kind sp) fresh))"
    using updateObject_kind [OF assms] by blast
  then show "\<exists>w. updateObject NewSpec c s = (s, Responded w) \<and> StatusCode w = StatusBadRequest
                 \<and> Written w = APIErr StatusBadRequest
                                  (''different kinds: '' @ Kind old @ '', '' @ Kind sp)
                 \<and> Header w ConfigVersionKey = None"
    by (simp add: HandleAPIError_def fresh_def)
next
  fix old assume "s_getObject s (Name sp) = Some old \<and> Kind old = Kind sp"
  then have eq: "updateObject NewSpec c s =
     ((s_putObject s sp)\<lparr>configVersion := configVersion s + 1\<rparr>,
      Responded \<lparr>StatusCode = StatusOK,
                 Header = [ConfigVersionKey \<mapsto> sprintf_d (configVersion s + 1)],
                 Written = NoBody\<rparr>)"
    using updateObject_ok [OF assms] by blast
  show "\<exists>s' w. updateObject NewSpec c s = (s', Responded w)
                 \<and> StatusCode w = StatusOK
                 \<and> s_getObject s' (Name sp) = Some sp
                 \<and> (\<forall>n. n \<noteq> Name sp \<longrightarrow> s_getObject s' n = s_getObject s n)
                 \<and> configVersion s' = configVersion s + 1
                 \<and> statusView s' = statusView s
                 \<and> Header w ConfigVersionKey = Some (sprintf_d (configVersion s'))"
    unfolding eq
    apply (intro exI conjI)
          apply (rule refl)
         apply simp
        apply (simp add: s_getObject_put)
       apply (simp add: s_getObject_put)
      apply simp
     apply (simp add: s_putObject_def)
    apply simp
    done
qed

theorem updateObject_notfound_mismatch_or_replaced_witness:
  "readObjectSpec exNewSpec (exReq ''svc1'' ''svc1 Other v3'') = Inr (exSpec ''svc1'' ''Other'' ''v3'')
   \<and> s_getObject exServer ''svc1'' = None
   \<and> updateObject exNewSpec (exReq ''svc1'' ''svc1 Other v3'') exServer
     = (exServer, Responded \<lparr>StatusCode = 404, Header = Map.empty,
                             Written = APIErr 404 ''not found''\<rparr>)
   \<and> s_getObject (exHolding [exSpec ''svc1'' ''Pipeline'' ''v1''] 1) ''svc1''
     = Some (exSpec ''svc1'' ''Pipeline'' ''v1'')
   \<and> updateObject exNewSpec (exReq ''svc1'' ''svc1 Other v3'')
        (exHolding [exSpec ''svc1'' ''Pipeline'' ''v1''] 1)
     = (exHolding [exSpec ''svc1'' ''Pipeline'' ''v1''] 1,
        Responded \<lparr>StatusCode = 400, Header = Map.empty,
                   Written = APIErr 400 ''different kinds: Pipeline, Other''\<rparr>)
   \<and> s_getObject (exHolding [exSpec ''svc1'' ''Other'' ''v1''] 1) ''svc1''
     = Some (exSpec ''svc1'' ''Other'' ''v1'')
   \<and> updateObject exNewSpec (exReq ''svc1'' ''svc1 Other v3'')
        (exHolding [exSpec ''svc1'' ''Other'' ''v1''] 1)
     = (exHolding [exSpec ''svc1'' ''Other'' ''v3''] 2,
        Responded \<lparr>StatusCode = 200, Header = [ConfigVersionKey \<mapsto> ''2''], Written = NoBody\<rparr>)"
proof -
  have p: "readObjectSpec exNewSpec (exReq ''svc1'' ''svc1 Other v3'')
             = Inr (exSpec ''svc1'' ''Other'' ''v3'')"
    by (simp add: ex_defs handler_defs Let_def)
  show ?thesis
    using updateObject_notfound_mismatch_or_replaced [OF p, of exServer]
      updateObject_notfound_mismatch_or_replaced [OF p, of "exHolding [exSpec ''svc1'' ''Pipeline'' ''v1''] 1"]
      updateObject_notfound_mismatch_or_replaced [OF p, of "exHolding [exSpec ''svc1'' ''Other'' ''v1''] 1"]
    by (simp add: ex_defs handler_defs Let_def)
qed


text \<open>
  C4. Delete: when the registry holds no entry for the name in the path the answer is
  NotFound, the server (the mapping, the version) is as before and no version is
  returned; when it holds one, the entry is removed, the other entries are as before, the
  version goes up by one and is returned, and a get of that name right after is answered
  NotFound.
\<close>

theorem deleteObject_notfound_or_removed:
  "(s_getObject s (ParamName c) = None \<longrightarrow>
      (\<exists>w. deleteObject c s = (s, Responded w) \<and> StatusCode w = StatusNotFound
           \<and> Header w ConfigVersionKey = None))
   \<and> (s_getObject s (ParamName c) \<noteq> None \<longrightarrow>
      (\<exists>s' w. deleteObject c s = (s', Responded w)
           \<and> StatusCode w = StatusOK
           \<and> s_getObject s' (ParamName c) = None
           \<and> (\<forall>n. n \<noteq> ParamName c \<longrightarrow> s_getObject s' n = s_getObject s n)
           \<and> configVersion s' = configVersion s + 1
           \<and> statusView s' = statusView s
           \<and> Header w ConfigVersionKey = Some (sprintf_d (configVersion s'))
           \<and> (\<exists>w'. getObject c s' = Responded w' \<and> StatusCode w' = StatusNotFound)))"
proof (intro conjI impI)
  assume "s_getObject s (ParamName c) = None"
  from deleteObject_notfound [OF this]
  show "\<exists>w. deleteObject c s = (s, Responded w) \<and> StatusCode w = StatusNotFound
           \<and> Header w ConfigVersionKey = None"
    by (simp add: HandleAPIError_def fresh_def)
next
  assume "s_getObject s (ParamName c) \<noteq> None"
  then obtain sp where "s_getObject s (ParamName c) = Some sp" by blast
  note eq = deleteObject_ok [OF this]
  let ?s' = "(s_deleteObject s (ParamName c))\<lparr>configVersion := configVersion s + 1\<rparr>"
  have gone: "s_getObject ?s' (ParamName c) = None"
    by (simp add: s_getObject_delete)
  then have get: "\<exists>w'. getObject c ?s' = Responded w' \<and> StatusCode w' = StatusNotFound"
    by (simp add: getObject_def HandleAPIError_def)
  show "\<exists>s' w. deleteObject c s = (s', Responded w)
           \<and> StatusCode w = StatusOK
           \<and> s_getObject s' (ParamName c) = None
           \<and> (\<forall>n. n \<noteq> ParamName c \<longrightarrow> s_getObject s' n = s_getObject s n)
           \<and> configVersion s' = configVersion s + 1
           \<and> statusView s' = statusView s
           \<and> Header w ConfigVersionKey = Some (sprintf_d (configVersion s'))
           \<and> (\<exists>w'. getObject c s' = Responded w' \<and> StatusCode w' = StatusNotFound)"
  proof -
    have sv: "statusView ?s' = statusView s"
      by (simp add: s_deleteObject_def)
    have others: "\<forall>n. n \<noteq> ParamName c \<longrightarrow> s_getObject ?s' n = s_getObject s n"
      by (simp add: s_getObject_delete)
    show ?thesis
      unfolding eq using gone get sv others by simp
  qed
qed

theorem deleteObject_notfound_or_removed_witness:
  "s_getObject exServer ''svc1'' = None
   \<and> deleteObject (exReq ''svc1'' []) exServer
     = (exServer, Responded \<lparr>StatusCode = 404, Header = Map.empty,
                             Written = APIErr 404 ''not found''\<rparr>)
   \<and> s_getObject (exHolding [exSpec ''a'' ''K'' ''v'', exSpec ''svc1'' ''Pipeline'' ''v1''] 7) ''svc1''
     = Some (exSpec ''svc1'' ''Pipeline'' ''v1'')
   \<and> deleteObject (exReq ''svc1'' [])
        (exHolding [exSpec ''a'' ''K'' ''v'', exSpec ''svc1'' ''Pipeline'' ''v1''] 7)
     = (exHolding [exSpec ''a'' ''K'' ''v''] 8,
        Responded \<lparr>StatusCode = 200, Header = [ConfigVersionKey \<mapsto> ''8''], Written = NoBody\<rparr>)
   \<and> getObject (exReq ''svc1'' []) (exHolding [exSpec ''a'' ''K'' ''v''] 8)
     = Responded \<lparr>StatusCode = 404, Header = Map.empty, Written = APIErr 404 ''not found''\<rparr>"
  using deleteObject_notfound_or_removed [of exServer "exReq ''svc1'' []"]
    deleteObject_notfound_or_removed
      [of "exHolding [exSpec ''a'' ''K'' ''v'', exSpec ''svc1'' ''Pipeline'' ''v1''] 7" "exReq ''svc1'' []"]
  by (simp add: ex_defs handler_defs Let_def)

text \<open>
  C5. Create and update: when the body is read and parses to a Spec, and the request
  path supplies a non-empty name that differs from the Spec's name, the answer is
  BadRequest with the message of the name mismatch, the server (the mapping, the
  version) is as before and no version is returned.
\<close>

theorem name_mismatch_is_bad_request:
  assumes "ReadAll c = Inr b" and "NewSpec b = Inr sp"
    and "ParamName c \<noteq> []" and "ParamName c \<noteq> Name sp"
  shows "(\<exists>w. createObject NewSpec c s = (s, Responded w)
              \<and> StatusCode w = StatusBadRequest
              \<and> Written w = APIErr StatusBadRequest ''inconsistent name in url and spec ''
              \<and> Header w ConfigVersionKey = None)
       \<and> (\<exists>w. updateObject NewSpec c s = (s, Responded w)
              \<and> StatusCode w = StatusBadRequest
              \<and> Written w = APIErr StatusBadRequest ''inconsistent name in url and spec ''
              \<and> Header w ConfigVersionKey = None)"
proof -
  note bad = readObjectSpec_mismatch [where NewSpec = NewSpec, OF assms]
  show ?thesis
    by (simp add: createObject_bad [OF bad] updateObject_bad [OF bad] HandleAPIError_def fresh_def)
qed

theorem name_mismatch_is_bad_request_witness:
  "ReadAll (exReq ''svc2'' ''svc1 Pipeline v1'') = Inr ''svc1 Pipeline v1''
   \<and> exNewSpec ''svc1 Pipeline v1'' = Inr (exSpec ''svc1'' ''Pipeline'' ''v1'')
   \<and> ParamName (exReq ''svc2'' ''svc1 Pipeline v1'') = ''svc2''
   \<and> createObject exNewSpec (exReq ''svc2'' ''svc1 Pipeline v1'') exServer
     = (exServer, Responded \<lparr>StatusCode = 400, Header = Map.empty,
                             Written = APIErr 400 ''inconsistent name in url and spec ''\<rparr>)
   \<and> updateObject exNewSpec (exReq ''svc2'' ''svc1 Pipeline v1'')
        (exHolding [exSpec ''svc1'' ''Pipeline'' ''v0'', exSpec ''svc2'' ''Pipeline'' ''v0''] 2)
     = (exHolding [exSpec ''svc1'' ''Pipeline'' ''v0'', exSpec ''svc2'' ''Pipeline'' ''v0''] 2,
        Responded \<lparr>StatusCode = 400, Header = Map.empty,
                   Written = APIErr 400 ''inconsistent name in url and spec ''\<rparr>)"
proof -
  have r: "ReadAll (exReq ''svc2'' ''svc1 Pipeline v1'') = Inr ''svc1 Pipeline v1''"
    by (simp add: exReq_def)
  have p: "exNewSpec ''svc1 Pipeline v1'' = Inr (exSpec ''svc1'' ''Pipeline'' ''v1'')"
    by (simp add: exNewSpec_def exSpec_def)
  have n: "ParamName (exReq ''svc2'' ''svc1 Pipeline v1'') \<noteq> []"
    by (simp add: exReq_def)
  have m: "ParamName (exReq ''svc2'' ''svc1 Pipeline v1'') \<noteq> Name (exSpec ''svc1'' ''Pipeline'' ''v1'')"
    by (simp add: exReq_def exSpec_def)
  show ?thesis
    using name_mismatch_is_bad_request [where NewSpec = exNewSpec and s = exServer, OF r p n m]
      name_mismatch_is_bad_request [where NewSpec = exNewSpec and s =
          "exHolding [exSpec ''svc1'' ''Pipeline'' ''v0'', exSpec ''svc2'' ''Pipeline'' ''v0''] 2",
        OF r p n m]
    by (simp add: ex_defs handler_defs Let_def)
qed

text \<open>
  C10. Update detects no change: when the request parses to the very Spec that the
  registry holds under that name (same name, kind and content), the update is answered
  200, the registry is exactly as before, and the version still goes up by one and is
  returned.
\<close>

theorem updateObject_same_spec_bumps_version:
  assumes "readObjectSpec NewSpec c = Inr sp" and "s_getObject s (Name sp) = Some sp"
  shows "\<exists>w. updateObject NewSpec c s = (s\<lparr>configVersion := configVersion s + 1\<rparr>, Responded w)
             \<and> StatusCode w = StatusOK
             \<and> Header w ConfigVersionKey = Some (sprintf_d (configVersion s + 1))"
proof -
  from assms(2) have "AList.update (Name sp) sp (objects s) = objects s"
    by (simp add: s_getObject_def update_triv)
  then have "s_putObject s sp = s"
    by (simp add: s_putObject_def)
  with updateObject_ok [OF assms refl] show ?thesis
    by simp
qed

theorem updateObject_same_spec_bumps_version_witness:
  "readObjectSpec exNewSpec (exReq ''svc1'' ''svc1 Pipeline v1'') = Inr (exSpec ''svc1'' ''Pipeline'' ''v1'')
   \<and> s_getObject (exHolding [exSpec ''svc1'' ''Pipeline'' ''v1''] 1) ''svc1''
     = Some (exSpec ''svc1'' ''Pipeline'' ''v1'')
   \<and> updateObject exNewSpec (exReq ''svc1'' ''svc1 Pipeline v1'')
        (exHolding [exSpec ''svc1'' ''Pipeline'' ''v1''] 1)
     = (exHolding [exSpec ''svc1'' ''Pipeline'' ''v1''] 2,
        Responded \<lparr>StatusCode = 200, Header = [ConfigVersionKey \<mapsto> ''2''], Written = NoBody\<rparr>)"
proof -
  have p: "readObjectSpec exNewSpec (exReq ''svc1'' ''svc1 Pipeline v1'')
             = Inr (exSpec ''svc1'' ''Pipeline'' ''v1'')"
    by (simp add: ex_defs handler_defs Let_def)
  have g: "s_getObject (exHolding [exSpec ''svc1'' ''Pipeline'' ''v1''] 1)
             (Name (exSpec ''svc1'' ''Pipeline'' ''v1'')) = Some (exSpec ''svc1'' ''Pipeline'' ''v1'')"
    by (simp add: ex_defs handler_defs)
  show ?thesis
    using updateObject_same_spec_bumps_version [OF p g]
    by (simp add: ex_defs handler_defs Let_def)
qed

text \<open>
  C6. List: whatever the registry holds and in whatever order it hands the Specs out, a
  list response presents exactly the stored Specs, sorted by name in ascending (byte-wise)
  order: the body is the marshalled list of their unmarshalled YAML, in that order. Two
  registries with the same Specs, stored in different orders, give the same response.
  (Every registry reached from an empty one is well keyed.) Creating c, a and b in this
  order and listing yields a, b, c.
\<close>

theorem listObjects_sorted_by_name:
  "(\<forall>w. listObjects unm mar s = Responded w \<longrightarrow>
      (\<exists>specs ms buff. mset specs = mset (s_listObjects s) \<and> sorted (map Name specs)
          \<and> map (\<lambda>sp. unm (YAMLConfig sp)) specs = map Inr ms \<and> mar ms = Inr buff
          \<and> Written w = Bytes buff \<and> StatusCode w = StatusOK))
   \<and> (wellKeyed s \<and> mset (s_listObjects t) = mset (s_listObjects s) \<longrightarrow>
        listObjects unm mar t = listObjects unm mar s)
   \<and> (objects s = [] \<longrightarrow> wellKeyed s)
   \<and> (\<forall>reqs. wellKeyed s \<longrightarrow> wellKeyed (fst (run d reqs s)))"
proof (intro conjI allI impI)
  fix w assume "listObjects unm mar s = Responded w"
  then obtain ms buff where
    u: "unmarshalAll unm (sort_Sort (s_listObjects s)) = Inr ms" and m: "mar ms = Inr buff"
    and w: "w = \<lparr>StatusCode = StatusOK, Header = [ContentType \<mapsto> ''text/vnd.yaml''],
               Written = Bytes buff\<rparr>"
    by (auto simp: listObjects_Responded)
  from u have "map (\<lambda>sp. unm (YAMLConfig sp)) (sort_Sort (s_listObjects s)) = map Inr ms"
    by (simp add: unmarshalAll_Inr)
  with m w show "\<exists>specs ms buff. mset specs = mset (s_listObjects s) \<and> sorted (map Name specs)
          \<and> map (\<lambda>sp. unm (YAMLConfig sp)) specs = map Inr ms \<and> mar ms = Inr buff
          \<and> Written w = Bytes buff \<and> StatusCode w = StatusOK"
    using mset_sort_Sort [of "s_listObjects s"] sorted_sort_Sort [of "s_listObjects s"]
    by (intro exI [of _ "sort_Sort (s_listObjects s)"] exI [of _ ms] exI [of _ buff]) simp
next
  assume "wellKeyed s \<and> mset (s_listObjects t) = mset (s_listObjects s)"
  then have "sort_Sort (s_listObjects t) = sort_Sort (s_listObjects s)"
    by (intro sort_Sort_unique wellKeyed_names) simp_all
  then show "listObjects unm mar t = listObjects unm mar s"
    by (simp add: listObjects_def)
next
  assume "objects s = []"
  then show "wellKeyed s" by (simp add: wellKeyed_def)
next
  fix reqs assume "wellKeyed s"
  then show "wellKeyed (fst (run d reqs s))"
    using run_wellKeyed [of s d reqs] by (cases "run d reqs s") simp
qed

theorem listObjects_sorted_by_name_witness:
  "run exDeps exCreates exServer =
     (exHolding [exSpec ''c'' ''K'' ''v'', exSpec ''a'' ''K'' ''v'', exSpec ''b'' ''K'' ''v''] 3,
      [Responded \<lparr>StatusCode = 201,
                  Header = [ConfigVersionKey \<mapsto> ''1'', Location \<mapsto> ''/objects/c''],
                  Written = NoBody\<rparr>,
       Responded \<lparr>StatusCode = 201,
                  Header = [ConfigVersionKey \<mapsto> ''2'', Location \<mapsto> ''/objects/a''],
                  Written = NoBody\<rparr>,
       Responded \<lparr>StatusCode = 201,
                  Header = [ConfigVersionKey \<mapsto> ''3'', Location \<mapsto> ''/objects/b''],
                  Written = NoBody\<rparr>,
       Responded \<lparr>StatusCode = 200, Header = [ContentType \<mapsto> ''text/vnd.yaml''],
                  Written = Bytes ''- a K v; - b K v; - c K v; ''\<rparr>])
   \<and> sort_Sort (s_listObjects
        (exHolding [exSpec ''c'' ''K'' ''v'', exSpec ''a'' ''K'' ''v'', exSpec ''b'' ''K'' ''v''] 3))
     = [exSpec ''a'' ''K'' ''v'', exSpec ''b'' ''K'' ''v'', exSpec ''c'' ''K'' ''v'']
   \<and> wellKeyed (exHolding [exSpec ''c'' ''K'' ''v'', exSpec ''a'' ''K'' ''v'', exSpec ''b'' ''K'' ''v''] 3)
   \<and> listObjects (d_Unmarshal exDeps) (d_MarshalSpecs exDeps)
        (exHolding [exSpec ''b'' ''K'' ''v'', exSpec ''c'' ''K'' ''v'', exSpec ''a'' ''K'' ''v''] 9)
     = Responded \<lparr>StatusCode = 200, Header = [ContentType \<mapsto> ''text/vnd.yaml''],
                  Written = Bytes ''- a K v; - b K v; - c K v; ''\<rparr>"
  using listObjects_sorted_by_name [of "d_Unmarshal exDeps" "d_MarshalSpecs exDeps"
      "exHolding [exSpec ''c'' ''K'' ''v'', exSpec ''a'' ''K'' ''v'', exSpec ''b'' ''K'' ''v''] 3"
      "exHolding [exSpec ''b'' ''K'' ''v'', exSpec ''c'' ''K'' ''v'', exSpec ''a'' ''K'' ''v''] 9"
      exDeps]
  by (simp add: exCreates_run) (simp add: wellKeyed_def ex_defs handler_defs list_defs Let_def)



text \<open>
  C8. Get status, with the state \<open>s1\<close> that the existence check reads and the state
  \<open>s2\<close> that the status fetch reads: the answer is NotFound exactly when the registry
  of \<open>s1\<close> holds no entry for the name; when it holds one, the outcome is decided by
  the status view of \<open>s2\<close> alone (its marshalled status for the name, with status 200),
  the registry of \<open>s2\<close> is not looked at. In particular, when a delete of the name is
  accepted between the check and the fetch, the name is gone from the registry, a status
  request that starts afterwards is answered NotFound, and the request already past its
  check has the same outcome as if the delete had not happened: the last status of the
  name, not NotFound.
\<close>

theorem getStatusObject_notfound_only_from_precheck:
  "((\<exists>w. getStatusObject_at mar c s1 s2 = Responded w \<and> StatusCode w = StatusNotFound)
      \<longleftrightarrow> s_getObject s1 (ParamName c) = None)
   \<and> (\<forall>sp. s_getObject s1 (ParamName c) = Some sp \<longrightarrow>
         getStatusObject_at mar c s1 s2 =
           (case mar (s_getStatusObject s2 (ParamName c)) of
              Inl err \<Rightarrow> Panicked err
            | Inr buff \<Rightarrow> Responded \<lparr>StatusCode = StatusOK,
                                      Header = [ContentType \<mapsto> ''text/vnd.yaml''],
                                      Written = Bytes buff\<rparr>))
   \<and> (\<forall>sp s' w. s_getObject s1 (ParamName c) = Some sp
         \<and> deleteObject c s1 = (s', Responded w) \<longrightarrow>
         s_getObject s' (ParamName c) = None
         \<and> (\<exists>w'. getStatusObject mar c s' = Responded w' \<and> StatusCode w' = StatusNotFound)
         \<and> getStatusObject_at mar c s1 s' = getStatusObject mar c s1
         \<and> (\<forall>w'. getStatusObject_at mar c s1 s' = Responded w' \<longrightarrow> StatusCode w' = StatusOK))"
proof -
  have p1: "(\<exists>w. getStatusObject_at mar c s1 s2 = Responded w \<and> StatusCode w = StatusNotFound)
      \<longleftrightarrow> s_getObject s1 (ParamName c) = None"
    by (auto simp: getStatusObject_at_cases StatusOK_def StatusNotFound_def
        split: option.splits sum.splits)
  have p2: "getStatusObject_at mar c s1 s2 =
           (case mar (s_getStatusObject s2 (ParamName c)) of
              Inl err \<Rightarrow> Panicked err
            | Inr buff \<Rightarrow> Responded \<lparr>StatusCode = StatusOK,
                                      Header = [ContentType \<mapsto> ''text/vnd.yaml''],
                                      Written = Bytes buff\<rparr>)"
    if "s_getObject s1 (ParamName c) = Some sp" for sp
    using that by (simp add: getStatusObject_at_cases)
  have p3: "s_getObject s' (ParamName c) = None
         \<and> (\<exists>w'. getStatusObject mar c s' = Responded w' \<and> StatusCode w' = StatusNotFound)
         \<and> getStatusObject_at mar c s1 s' = getStatusObject mar c s1
         \<and> (\<forall>w'. getStatusObject_at mar c s1 s' = Responded w' \<longrightarrow> StatusCode w' = StatusOK)"
    if a: "s_getObject s1 (ParamName c) = Some sp \<and> deleteObject c s1 = (s', Responded w)"
    for sp s' w
  proof -
    from a have s': "s' = (s_deleteObject s1 (ParamName c))\<lparr>configVersion := configVersion s1 + 1\<rparr>"
      using deleteObject_ok [of s1 c sp] by simp
    then have gone: "s_getObject s' (ParamName c) = None"
      by (simp add: s_getObject_delete)
    from s' have view: "s_getStatusObject s' (ParamName c) = s_getStatusObject s1 (ParamName c)"
      by (simp add: s_getStatusObject_def s_deleteObject_def)
    show ?thesis
      using a gone view
      by (auto simp: getStatusObject_def getStatusObject_at_cases split: sum.splits)
  qed
  from p1 p2 p3 show ?thesis by blast
qed

theorem getStatusObject_notfound_only_from_precheck_witness:
  "s_getObject exRunning ''svc1'' = Some (exSpec ''svc1'' ''Pipeline'' ''v1'')
   \<and> deleteObject (exReq ''svc1'' []) exRunning
     = (\<lparr>objects = [], configVersion = 2, statusView = [''svc1'' \<mapsto> 7]\<rparr>,
        Responded \<lparr>StatusCode = 200, Header = [ConfigVersionKey \<mapsto> ''2''], Written = NoBody\<rparr>)
   \<and> getStatusObject_at (d_MarshalStatus exDeps) (exReq ''svc1'' []) exRunning
        \<lparr>objects = [], configVersion = 2, statusView = [''svc1'' \<mapsto> 7]\<rparr>
     = Responded \<lparr>StatusCode = 200, Header = [ContentType \<mapsto> ''text/vnd.yaml''],
                  Written = Bytes ''up''\<rparr>
   \<and> getStatusObject (d_MarshalStatus exDeps) (exReq ''svc1'' [])
        \<lparr>objects = [], configVersion = 2, statusView = [''svc1'' \<mapsto> 7]\<rparr>
     = Responded \<lparr>StatusCode = 404, Header = Map.empty, Written = APIErr 404 ''not found''\<rparr>"
  using getStatusObject_notfound_only_from_precheck
    [of "d_MarshalStatus exDeps" "exReq ''svc1'' []" exRunning
      "\<lparr>objects = [], configVersion = 2, statusView = [''svc1'' \<mapsto> 7]\<rparr>"]
  by (simp add: exRunning_def ex_defs handler_defs status_defs Let_def)

text \<open>
  C9. A request ends in a panic exactly when the serialization of what it is about to
  return fails: for list-objects the marshalling of the sorted Specs
  (\<^verbatim>\<open>specList.Marshal\<close>), for get-status the marshalling of the fetched status (after
  the existence check has passed), for list-statuses the marshalling of the status view,
  for list-kinds the marshalling of the kinds. The panic carries that error, there is no
  response, and the server is as before. No other handler and no other failure ends in a
  panic: create, update, delete and get always answer with a response.
\<close>

theorem panic_iff_serialization_fails:
  "serve d h c s = (s', Panicked err) \<longleftrightarrow>
     s' = s \<and>
     ((h = ListObjects
         \<and> Marshal (d_Unmarshal d) (d_MarshalSpecs d) (sort_Sort (s_listObjects s)) = Inl err)
      \<or> (h = GetStatusObject \<and> s_getObject s (ParamName c) \<noteq> None
         \<and> d_MarshalStatus d (s_getStatusObject s (ParamName c)) = Inl err)
      \<or> (h = ListStatusObjects \<and> d_MarshalStatuses d (s_listStatusObjects s) = Inl err)
      \<or> (h = ListObjectKinds \<and> d_MarshalKinds d (d_ObjectKinds d) = Inl err))"
proof (cases h)
  case ListObjectKinds
  then show ?thesis
    by (auto simp: serve_def listObjectKinds_def split: sum.splits)
next
  case CreateObject
  then show ?thesis
    by (auto simp: serve_def createObject_def upgradeConfigVersion_eq Let_def
        split: sum.splits option.splits)
next
  case ListObjects
  then show ?thesis
    by (auto simp: serve_def listObjects_def Let_def split: sum.splits)
next
  case GetObject
  then show ?thesis
    by (auto simp: serve_def getObject_cases split: option.splits)
next
  case UpdateObject
  then show ?thesis
    by (auto simp: serve_def updateObject_def upgradeConfigVersion_eq Let_def
        split: sum.splits option.splits)
next
  case DeleteObject
  then show ?thesis
    by (auto simp: serve_def deleteObject_def upgradeConfigVersion_eq Let_def
        split: option.splits)
next
  case ListStatusObjects
  then show ?thesis
    by (auto simp: serve_def listStatusObjects_def Let_def split: sum.splits)
next
  case GetStatusObject
  then show ?thesis
    by (auto simp: serve_def getStatusObject_def getStatusObject_at_cases
        split: sum.splits option.splits)
qed

theorem panic_iff_serialization_fails_witness:
  "serve exDeps ListObjects (exReq [] []) exBroken
     = (exBroken, Panicked ''unmarshal  to yaml failed: empty document'')
   \<and> serve exDeps GetStatusObject (exReq ''x'' []) exBroken = (exBroken, Panicked ''cannot marshal'')
   \<and> serve exDeps ListStatusObjects (exReq [] []) exBroken = (exBroken, Panicked ''cannot marshal'')
   \<and> serve exDeps GetStatusObject (exReq ''y'' []) exBroken
     = (exBroken, Responded \<lparr>StatusCode = 404, Header = Map.empty,
                             Written = APIErr 404 ''not found''\<rparr>)
   \<and> serve exDeps ListObjects (exReq [] []) exRunning
     = (exRunning, Responded \<lparr>StatusCode = 200, Header = [ContentType \<mapsto> ''text/vnd.yaml''],
                              Written = Bytes ''- svc1 Pipeline v1; ''\<rparr>)"
  using panic_iff_serialization_fails
      [of exDeps ListObjects "exReq [] []" exBroken exBroken
        "''unmarshal  to yaml failed: empty document''"]
    panic_iff_serialization_fails
      [of exDeps GetStatusObject "exReq ''x'' []" exBroken exBroken "''cannot marshal''"]
    panic_iff_serialization_fails
      [of exDeps ListStatusObjects "exReq [] []" exBroken exBroken "''cannot marshal''"]
  by (simp add: exRunning_def exBroken_def ex_defs handler_defs status_defs list_defs Let_def)

end
